theory Spec2Isabelle
  imports Complex_Main "HOL-Library.Sublist" "HOL-Library.Multiset"
begin

section \<open>Strings\<close>

text \<open>
  A JavaScript string is modelled as a \<open>string\<close> (a list of characters, one per code
  unit). The helpers below are the \<open>String.prototype\<close> methods the sources call, written
  out on lists: \<open>includes\<close> (here \<open>includesStr\<close>), \<open>indexOf\<close> and \<open>lastIndexOf\<close>
  (\<open>None\<close> is the source's -1), \<open>replace\<close> with a string pattern (first occurrence
  only), \<open>split('?')[0]\<close>, \<open>trim\<close>, \<open>substring\<close> and \<open>toLocaleLowerCase\<close>.
\<close>

fun includesStr :: "string \<Rightarrow> string \<Rightarrow> bool" where
  "includesStr [] t = (t = [])"
| "includesStr (c # s) t = (prefix t (c # s) \<or> includesStr s t)"

fun indexOf :: "string \<Rightarrow> string \<Rightarrow> nat option" where
  "indexOf [] t = (if t = [] then Some 0 else None)"
| "indexOf (c # s) t = (if prefix t (c # s) then Some 0 else map_option Suc (indexOf s t))"

definition lastIndexOf :: "string \<Rightarrow> string \<Rightarrow> nat \<Rightarrow> nat option" where
  "lastIndexOf s t fromIndex =
     (case filter (\<lambda>i. prefix t (drop i s)) (rev [0 ..< Suc (min fromIndex (length s - length t))]) of
        [] \<Rightarrow> None
      | i # _ \<Rightarrow> Some i)"

fun replace :: "string \<Rightarrow> string \<Rightarrow> string \<Rightarrow> string" where
  "replace [] t r = (if t = [] then r else [])"
| "replace (c # s) t r =
     (if prefix t (c # s) then r @ drop (length t) (c # s) else c # replace s t r)"

definition substring :: "string \<Rightarrow> nat \<Rightarrow> nat \<Rightarrow> string" where
  \<comment> \<open>\<open>substring(a, b)\<close> swaps its arguments when \<open>a > b\<close>.\<close>
  "substring s a b = take (max a b - min a b) (drop (min a b) s)"

definition splitFirst :: "char \<Rightarrow> string \<Rightarrow> string" where
  \<comment> \<open>\<open>s.split(c)[0]\<close>\<close>
  "splitFirst c s = takeWhile (\<lambda>x. x \<noteq> c) s"

definition isSpace :: "char \<Rightarrow> bool" where
  "isSpace c = (c \<in> set [CHR '' '', CHR 0x09, CHR 0x0A, CHR 0x0B, CHR 0x0C, CHR 0x0D, CHR 0xA0])"

definition trim :: "string \<Rightarrow> string" where
  "trim s = rev (dropWhile isSpace (rev (dropWhile isSpace s)))"

definition lowerChar :: "char \<Rightarrow> char" where
  "lowerChar c =
     (case map_of (zip ''ABCDEFGHIJKLMNOPQRSTUVWXYZ'' ''abcdefghijklmnopqrstuvwxyz'') c of
        Some l \<Rightarrow> l
      | None \<Rightarrow> c)"

definition toLocaleLowerCase :: "string \<Rightarrow> string" where
  \<comment> \<open>On the ASCII letters, in a locale without special casing rules; other characters
      are left as they are.\<close>
  "toLocaleLowerCase s = map lowerChar s"

definition orDefault :: "string option \<Rightarrow> string \<Rightarrow> string" where
  \<comment> \<open>\<open>value || fallback\<close> on a string that may be missing\<close>
  "orDefault v d = (case v of Some s \<Rightarrow> if s = [] then d else s | None \<Rightarrow> d)"

definition newline :: char where
  "newline = CHR 0x0A"

section \<open>Numbers\<close>

text \<open>
  A Number of the source is a double. Its arithmetic is a parameter of the model: a
  record of the operations the sources use, over a linearly ordered type of numbers.
  \<open>toNumber\<close> is the Number of a non-negative integer (exact below \<open>2^53\<close>, rounded
  above, and \<open>Infinity\<close> for very long runs of digits); \<open>num_add\<close>, \<open>num_mul\<close> and
  \<open>num_log10\<close> are \<open>+\<close>, \<open>*\<close> and \<open>Math.log10\<close>. The order of the type is the order of
  the numbers; \<open>NaN\<close> is not one of them, and \<open>parseInt\<close> returns \<open>None\<close> for it. The
  theorems hold whatever the operations are; the one fact of the arithmetic that a
  theorem needs is stated in it.
\<close>

record 'n arithmetic =
  toNumber :: "nat \<Rightarrow> 'n"
  num_add :: "'n \<Rightarrow> 'n \<Rightarrow> 'n"
  num_mul :: "'n \<Rightarrow> 'n \<Rightarrow> 'n"
  num_log10 :: "'n \<Rightarrow> 'n"

definition isDigit :: "char \<Rightarrow> bool" where
  "isDigit c = (c \<in> set ''0123456789'')"

definition digitVal :: "char \<Rightarrow> nat" where
  "digitVal c = of_char c - 48"

definition decimal :: "string \<Rightarrow> nat" where
  \<comment> \<open>the integer that a run of digits denotes\<close>
  "decimal ds = foldl (\<lambda>n c. 10 * n + digitVal c) 0 ds"

definition parseInt :: "'n arithmetic \<Rightarrow> string \<Rightarrow> 'n option" where
  \<comment> \<open>\<open>parseInt(s, 10)\<close> on the strings the score patterns capture (digits, after the
      commas are removed): the Number of the integer that the leading run of digits
      denotes, \<open>None\<close> (NaN) when there is none.\<close>
  "parseInt N s =
     (let ds = takeWhile isDigit s in if ds = [] then None else Some (toNumber N (decimal ds)))"

section \<open>The score patterns\<close>

text \<open>
  The three patterns that read a score have no alternative to explore once a character
  class has run to its end (each class is followed by a character outside it), so a
  match attempt at a position is a deterministic scan; the first match of the pattern in
  a text is the attempt at the leftmost position that succeeds.
\<close>

definition stripPrefix :: "string \<Rightarrow> string \<Rightarrow> string option" where
  "stripPrefix t s = (if prefix t s then Some (drop (length t) s) else None)"

fun firstMatch :: "(string \<Rightarrow> 'a option) \<Rightarrow> string \<Rightarrow> 'a option" where
  "firstMatch f [] = f []"
| "firstMatch f (c # s) = (case f (c # s) of Some r \<Rightarrow> Some r | None \<Rightarrow> firstMatch f s)"

definition scoreRegexAt :: "string \<Rightarrow> string option" where
  \<comment> \<open>\<open><span class="score[^>]*>([\d]+) points?<\/span>\<close> at the head of the text\<close>
  "scoreRegexAt s =
     (case stripPrefix ''<span class=\"score'' s of
        None \<Rightarrow> None
      | Some r1 \<Rightarrow>
          (case stripPrefix ''>'' (dropWhile (\<lambda>c. c \<noteq> CHR ''>'') r1) of
             None \<Rightarrow> None
           | Some r2 \<Rightarrow>
               (let ds = takeWhile isDigit r2 in
                if ds = [] then None
                else
                  (case stripPrefix '' point'' (dropWhile isDigit r2) of
                     None \<Rightarrow> None
                   | Some r3 \<Rightarrow>
                       (let r4 = (case stripPrefix ''s'' r3 of Some r \<Rightarrow> r | None \<Rightarrow> r3) in
                        if prefix ''</span>'' r4 then Some ds else None)))))"

definition scoreRegex :: "string \<Rightarrow> string option" where
  "scoreRegex s = firstMatch scoreRegexAt s"

section \<open>Discussion extractor\<close>

text \<open>
  \<open>extractRedditContent\<close> of \<open>lib/utils/documents.ts\<close>. The regular-expression engine on
  the block patterns and the \<open>html-to-text\<close> library are collaborators of the function:
  what they return on a text is a field of \<open>markup_engine\<close>. The score pattern is the
  scan above; its capture is a run of digits (\<open>scoreRegex_digits\<close> below), so
  \<open>parseInt(score, 10)\<close> is the Number of \<open>decimal score\<close>. With these collaborators
  total, nothing in the body throws, and the \<open>catch\<close> branch is not taken.
\<close>

record comment =
  author :: string
  ctext :: string
  score :: "string option"

record 'n tracked_comment = comment +
  scoreNum :: 'n
  visible :: bool

record markup_engine =
  titleRegex :: "string \<Rightarrow> string option"
    \<comment> \<open>capture 1 of \<open><title>(.*?)<\/title>\<close>\<close>
  stripSiteName :: "string \<Rightarrow> string"
    \<comment> \<open>\<open>.replace(/ : .*$/, '')\<close>\<close>
  postContentRegex :: "string \<Rightarrow> string option"
    \<comment> \<open>capture 1 of the post body pattern\<close>
  fullCommentRegex :: "string \<Rightarrow> (string \<times> string) list"
    \<comment> \<open>the successive matches of the comment block pattern: the block and capture 1\<close>
  commentContentRegex :: "string \<Rightarrow> (string \<times> string) option"
    \<comment> \<open>captures 1 and 2 of the author and body pattern in a block\<close>
  htmlToText :: "string \<Rightarrow> string"

record extracted =
  title :: string
  postContent :: string
  comments :: "comment list"
  success :: bool

definition MAX_COMMENTS :: nat where
  "MAX_COMMENTS = 10"

definition publish :: "'n tracked_comment \<Rightarrow> comment" where
  \<comment> \<open>\<open>({ author, text, score }) => ({ author, text, score })\<close>\<close>
  "publish c = \<lparr>author = author c, ctext = ctext c, score = score c\<rparr>"

definition collectComment ::
  "'n arithmetic \<Rightarrow> markup_engine \<Rightarrow> string \<times> string \<Rightarrow> 'n tracked_comment option" where
  "collectComment N E m =
     (let commentHtml = fst m;
          commentClasses = snd m;
          isVisible = (includesStr commentClasses ''noncollapsed''
                       \<and> \<not> includesStr commentClasses ''collapsed'')
      in case commentContentRegex E commentHtml of
           None \<Rightarrow> None
         | Some (a, md) \<Rightarrow>
             (let t = htmlToText E md;
                  sc = scoreRegex commentHtml;
                  n = (case sc of None \<Rightarrow> toNumber N 0 | Some s \<Rightarrow> toNumber N (decimal s))
              in if length (trim t) > 0
                 then Some \<lparr>author = a, ctext = trim t, score = sc, scoreNum = n, visible = isVisible\<rparr>
                 else None))"

definition collectComments ::
  "'n arithmetic \<Rightarrow> markup_engine \<Rightarrow> string \<Rightarrow> 'n tracked_comment list" where
  "collectComments N E htmlContent =
     List.map_filter (collectComment N E) (fullCommentRegex E htmlContent)"

definition sortByScore :: "('n::linorder) tracked_comment list \<Rightarrow> 'n tracked_comment list" where
  \<comment> \<open>\<open>allComments.sort((a, b) => b.scoreNum - a.scoreNum)\<close>: the stable sort in
      descending order of \<open>scoreNum\<close> (the reverse of the stable ascending sort of the
      reversed list)\<close>
  "sortByScore cs = rev (sort_key scoreNum (rev cs))"

definition selectComments :: "('n::linorder) tracked_comment list \<Rightarrow> comment list" where
  "selectComments cs =
     (let allComments = sortByScore cs;
          visibleComments = filter visible allComments;
          outputComments = map publish (take MAX_COMMENTS visibleComments)
      in if length outputComments = 0 \<and> length allComments > 0
         then map publish (take MAX_COMMENTS allComments)
         else outputComments)"

definition extractRedditContent ::
  "('n::linorder) arithmetic \<Rightarrow> markup_engine \<Rightarrow> string \<Rightarrow> extracted" where
  "extractRedditContent N E htmlContent =
     (let t = (case titleRegex E htmlContent of
                 Some m \<Rightarrow> stripSiteName E m
               | None \<Rightarrow> ''Reddit Discussion'');
          p = (case postContentRegex E htmlContent of
                 Some m \<Rightarrow> if m \<noteq> [] then htmlToText E m else []
               | None \<Rightarrow> []);
          cs = selectComments (collectComments N E htmlContent)
      in \<lparr>title = t, postContent = p, comments = cs,
          success = (length p > 0 \<or> length cs > 0)\<rparr>)"

definition numericScore :: "'n arithmetic \<Rightarrow> comment \<Rightarrow> 'n" where
  \<comment> \<open>the Number a comment's score stands for; 0 without a score\<close>
  "numericScore N c =
     (case score c of None \<Rightarrow> toNumber N 0 | Some s \<Rightarrow> toNumber N (decimal s))"

section \<open>Network and time\<close>

text \<open>
  Requests and waits are effects on a \<open>world\<close>: the number of requests sent so far and the
  log of what was done (\<open>Get\<close> a page, \<open>Request\<close> the search service with a list of
  parameters, \<open>Delay\<close> for some milliseconds). What the network answers is a parameter:
  the answer to the \<open>n\<close>-th request, sent to a given address. An \<open>axios\<close> failure
  carries the status of the response when there was one; \<open>Error\<close> is
  \<open>new Error(message)\<close>.
\<close>

datatype error = AxiosError "nat option" string | Error string

fun status :: "error \<Rightarrow> nat option" where
  \<comment> \<open>\<open>error.response?.status\<close>\<close>
  "status (AxiosError st m) = st"
| "status (Error m) = None"

fun message :: "error \<Rightarrow> string" where
  "message (AxiosError st m) = m"
| "message (Error m) = m"

datatype event = Get string | Request "(string \<times> string) list" | Delay nat

record world =
  sent :: nat
  events :: "event list"

type_synonym network = "nat \<Rightarrow> string \<Rightarrow> error + string"

definition axiosGet :: "network \<Rightarrow> string \<Rightarrow> world \<Rightarrow> (error + string) \<times> world" where
  "axiosGet net u w = (net (sent w) u, w\<lparr>sent := Suc (sent w), events := events w @ [Get u]\<rparr>)"

definition delay :: "nat \<Rightarrow> world \<Rightarrow> world" where
  "delay ms w = w\<lparr>events := events w @ [Delay ms]\<rparr>"

section \<open>Thread scorer\<close>

text \<open>
  \<open>extractTopCommentScore\<close> and the batch loop around it, in the search branch of
  \<open>createSearchRetrieverChain\<close>. The comment block pattern is a parameter (the blocks it
  matches in a page, in order); the score patterns are the scans above, and the
  arithmetic on the scores is the parameter \<open>N\<close>. The diagnostic strings and files the
  source writes are left out.
\<close>

definition maxRetries :: nat where
  "maxRetries = 3"

definition alternateUrl :: "string \<Rightarrow> string" where
  "alternateUrl urlToFetch = replace urlToFetch ''old.reddit.com'' ''www.reddit.com''"

definition attempt :: "network \<Rightarrow> string \<Rightarrow> world \<Rightarrow> (error + string) \<times> world" where
  \<comment> \<open>the inner \<open>try\<close> of one round: the request, and on failure the other host\<close>
  "attempt net normalizedUrl w =
     (let urlToFetch = normalizedUrl in
      case axiosGet net urlToFetch w of
        (Inr response, w1) \<Rightarrow> (Inr response, w1)
      | (Inl firstError, w1) \<Rightarrow>
          if includesStr urlToFetch ''old.reddit.com''
          then axiosGet net (alternateUrl urlToFetch) w1
          else (Inl firstError, w1))"

function fetchWithRetry ::
  "network \<Rightarrow> string \<Rightarrow> string \<Rightarrow> nat \<Rightarrow> world \<Rightarrow> (error + string) \<times> world" where
  "fetchWithRetry net u normalizedUrl retries w =
     (if retries < maxRetries then
        (let w0 = (if retries > 0 then delay (2000 * retries) w else w) in
         case attempt net normalizedUrl w0 of
           (Inr response, w1) \<Rightarrow> (Inr response, w1)
         | (Inl err, w1) \<Rightarrow>
             (if status err = Some 429 then
                (if retries + 1 \<ge> maxRetries
                 then (Inl (Error ''Rate limited by Reddit after 3 retries''), w1)
                 else fetchWithRetry net u normalizedUrl (retries + 1) w1)
              else
                (if retries + 1 \<ge> maxRetries
                 then (Inl err, w1)
                 else fetchWithRetry net u normalizedUrl (retries + 1) w1)))
      else (Inl (Error (''Failed to get response for '' @ u @ '' after 3 attempts'')), w))"
  by pat_completeness auto
termination
  by (relation "measure (\<lambda>(net, u, normalizedUrl, retries, w). maxRetries - retries)") auto

definition normalizeUrl :: "string \<Rightarrow> string" where
  "normalizeUrl u =
     (if includesStr u ''www.reddit.com'' then replace u ''www.reddit.com'' ''old.reddit.com'' else u)"

definition fetchPage :: "network \<Rightarrow> string \<Rightarrow> world \<Rightarrow> (error + string) \<times> world" where
  "fetchPage net u w = fetchWithRetry net u (normalizeUrl u) 0 w"

definition isScoreChar :: "char \<Rightarrow> bool" where
  \<comment> \<open>\<open>[\d,]\<close>\<close>
  "isScoreChar c = (isDigit c \<or> c = CHR '','')"

definition scoreDivTail :: "string \<Rightarrow> string option" where
  \<comment> \<open>\<open>[^>]*>([\d,]+)<\/div>\<close>\<close>
  "scoreDivTail r =
     (case stripPrefix ''>'' (dropWhile (\<lambda>c. c \<noteq> CHR ''>'') r) of
        None \<Rightarrow> None
      | Some r1 \<Rightarrow>
          (let ds = takeWhile isScoreChar r1 in
           if ds \<noteq> [] \<and> prefix ''</div>'' (dropWhile isScoreChar r1) then Some ds else None))"

definition postScoreRegexAt :: "string \<Rightarrow> string option" where
  \<comment> \<open>\<open><div class="score[^"]*"[^>]*>([\d,]+)<\/div>\<close> at the head of the text\<close>
  "postScoreRegexAt s =
     (case stripPrefix ''<div class=\"score'' s of
        None \<Rightarrow> None
      | Some r1 \<Rightarrow>
          (case stripPrefix ''\"'' (dropWhile (\<lambda>c. c \<noteq> CHR 0x22) r1) of
             None \<Rightarrow> None
           | Some r2 \<Rightarrow> scoreDivTail r2))"

definition altScoreRegexAt :: "string \<Rightarrow> string option" where
  \<comment> \<open>\<open><div class="score unvoted"[^>]*>([\d,]+)<\/div>\<close> at the head of the text\<close>
  "altScoreRegexAt s =
     (case stripPrefix ''<div class=\"score unvoted\"'' s of
        None \<Rightarrow> None
      | Some r1 \<Rightarrow> scoreDivTail r1)"

definition removeCommas :: "string \<Rightarrow> string" where
  \<comment> \<open>\<open>.replace(/,/g, '')\<close>\<close>
  "removeCommas s = filter (\<lambda>c. c \<noteq> CHR '','') s"

definition extractPostScore :: "'n arithmetic \<Rightarrow> string \<Rightarrow> 'n option" where
  \<comment> \<open>the post score read from a page; \<open>None\<close> is NaN, and 0 is the initial value\<close>
  "extractPostScore N html =
     (case firstMatch postScoreRegexAt html of
        Some m \<Rightarrow> parseInt N (removeCommas m)
      | None \<Rightarrow>
          (case firstMatch altScoreRegexAt html of
             Some m \<Rightarrow> parseInt N (removeCommas m)
           | None \<Rightarrow> Some (toNumber N 0)))"

fun scanComments ::
  "('n::linorder) arithmetic \<Rightarrow> string list \<Rightarrow> 'n \<Rightarrow> 'n list \<Rightarrow> 'n \<times> 'n list" where
  \<comment> \<open>the loop over the comment blocks: \<open>highestScore\<close> and \<open>commentScores\<close>\<close>
  "scanComments N [] highestScore commentScores = (highestScore, commentScores)"
| "scanComments N (commentHtml # rest) highestScore commentScores =
     (case scoreRegex commentHtml of
        Some m \<Rightarrow>
          (let sc = toNumber N (decimal m) in
           scanComments N rest (if sc > highestScore then sc else highestScore)
             (commentScores @ [sc]))
      | None \<Rightarrow> scanComments N rest highestScore commentScores)"

record 'n thread_metrics =
  postScore :: "'n option"
  highestCommentScore :: 'n
  commentCount :: nat
  commentScores :: "'n list"

datatype 'n analysis = Analysed "'n thread_metrics" | Failed string

record 'n thread_score =
  ts_url :: string
  ts_score :: 'n
  ts_metrics :: "'n analysis"

definition analysePage ::
  "('n::linorder) arithmetic \<Rightarrow> (string \<Rightarrow> string list) \<Rightarrow> string \<Rightarrow> string \<Rightarrow> 'n thread_score" where
  \<comment> \<open>\<open>highestScore + (postScore > 0 ? Math.log10(postScore) * 3 : 0)\<close>\<close>
  "analysePage N commentRegex u html =
     (let blocks = commentRegex html;
          (highestScore, scores) = scanComments N blocks (toNumber N 0) [];
          ps = extractPostScore N html;
          combinedScore =
            num_add N highestScore
              (case ps of
                 Some p \<Rightarrow> if p > toNumber N 0
                           then num_mul N (num_log10 N p) (toNumber N 3) else toNumber N 0
               | None \<Rightarrow> toNumber N 0)
      in \<lparr>ts_url = u, ts_score = combinedScore,
          ts_metrics = Analysed \<lparr>postScore = ps, highestCommentScore = highestScore,
                                 commentCount = length blocks,
                                 commentScores = take 10 (rev (sort scores))\<rparr>\<rparr>)"

definition scoreBody ::
  "('n::linorder) arithmetic \<Rightarrow> network \<Rightarrow> (string \<Rightarrow> string list) \<Rightarrow> string \<Rightarrow> world
   \<Rightarrow> (error + 'n thread_score) \<times> world" where
  \<comment> \<open>the body of the \<open>try\<close> of \<open>extractTopCommentScore\<close>\<close>
  "scoreBody N net commentRegex u w =
     (case fetchPage net u w of
        (Inl e, w1) \<Rightarrow> (Inl e, w1)
      | (Inr html, w1) \<Rightarrow> (Inr (analysePage N commentRegex u html), w1))"

definition zeroResult :: "'n arithmetic \<Rightarrow> string \<Rightarrow> error \<Rightarrow> 'n thread_score" where
  "zeroResult N u e = \<lparr>ts_url = u, ts_score = toNumber N 0, ts_metrics = Failed (message e)\<rparr>"

definition extractTopCommentScore ::
  "('n::linorder) arithmetic \<Rightarrow> network \<Rightarrow> (string \<Rightarrow> string list) \<Rightarrow> string \<Rightarrow> world
   \<Rightarrow> (error + 'n thread_score) \<times> world" where
  \<comment> \<open>\<open>try { ... } catch (error) { return { url, score: 0, ... } }\<close>\<close>
  "extractTopCommentScore N net commentRegex u w =
     (case scoreBody N net commentRegex u w of
        (Inl e, w1) \<Rightarrow> (Inr (zeroResult N u e), w1)
      | (Inr r, w1) \<Rightarrow> (Inr r, w1))"

definition catchZero ::
  "'n arithmetic \<Rightarrow> string \<Rightarrow> (world \<Rightarrow> (error + 'n thread_score) \<times> world) \<Rightarrow> world
   \<Rightarrow> (error + 'n thread_score) \<times> world" where
  \<comment> \<open>\<open>promise.catch(error => ({ url, score: 0, ... }))\<close>\<close>
  "catchZero N u task w =
     (case task w of
        (Inl e, w1) \<Rightarrow> (Inr (zeroResult N u e), w1)
      | (Inr r, w1) \<Rightarrow> (Inr r, w1))"

fun promiseAll :: "(world \<Rightarrow> (error + 'a) \<times> world) list \<Rightarrow> world \<Rightarrow> (error + 'a list) \<times> world" where
  \<comment> \<open>every task runs; the result is the first rejection, if any. The tasks of a batch
      are run one after the other.\<close>
  "promiseAll [] w = (Inr [], w)"
| "promiseAll (t # ts) w =
     (case t w of (r, w1) \<Rightarrow>
        (case promiseAll ts w1 of (rs, w2) \<Rightarrow>
           ((case r of
               Inl e \<Rightarrow> Inl e
             | Inr x \<Rightarrow> (case rs of Inl e \<Rightarrow> Inl e | Inr xs \<Rightarrow> Inr (x # xs))), w2)))"

definition BATCH_SIZE :: nat where
  "BATCH_SIZE = 3"

definition BATCH_DELAY :: nat where
  "BATCH_DELAY = 3000"

function scoreBatches ::
  "('n::linorder) arithmetic \<Rightarrow> network \<Rightarrow> (string \<Rightarrow> string list) \<Rightarrow> string list \<Rightarrow> nat
   \<Rightarrow> 'n thread_score list \<Rightarrow> world \<Rightarrow> (error + 'n thread_score list) \<times> world" where
  "scoreBatches N net commentRegex initialRedditUrls i allScoreResults w =
     (if i < length initialRedditUrls then
        (let batchUrls = take BATCH_SIZE (drop i initialRedditUrls) in
         case promiseAll
                (map (\<lambda>u. catchZero N u (extractTopCommentScore N net commentRegex u)) batchUrls)
                w of
           (Inl e, w1) \<Rightarrow> (Inl e, w1)
         | (Inr batchResults, w1) \<Rightarrow>
             scoreBatches N net commentRegex initialRedditUrls (i + BATCH_SIZE)
               (allScoreResults @ batchResults)
               (if i + BATCH_SIZE < length initialRedditUrls then delay BATCH_DELAY w1 else w1))
      else (Inr allScoreResults, w))"
  by pat_completeness auto
termination
  by (relation "measure (\<lambda>(N, net, commentRegex, urls, i, acc, w). length urls - i)")
     (auto simp: BATCH_SIZE_def)

definition scoreThreads ::
  "('n::linorder) arithmetic \<Rightarrow> network \<Rightarrow> (string \<Rightarrow> string list) \<Rightarrow> string list \<Rightarrow> world
   \<Rightarrow> (error + 'n thread_score list) \<times> world" where
  "scoreThreads N net commentRegex initialRedditUrls w =
     scoreBatches N net commentRegex initialRedditUrls 0 [] w"

declare fetchWithRetry.simps [simp del] scoreBatches.simps [simp del]

section \<open>Documents\<close>

record document =
  pageContent :: string
  metadata_title :: "string option"
  metadata_url :: "string option"
  metadata_isReddit :: bool

definition nth_opt :: "'a list \<Rightarrow> nat \<Rightarrow> 'a option" where
  \<comment> \<open>\<open>xs[i]\<close>, which is \<open>undefined\<close> (\<open>None\<close>) out of range\<close>
  "nth_opt xs i = (if i < length xs then Some (xs ! i) else None)"

fun sequence :: "(error + 'a) list \<Rightarrow> error + 'a list" where
  \<comment> \<open>a \<open>map\<close> whose callback may throw: the first failure is the result\<close>
  "sequence [] = Inr []"
| "sequence (x # xs) =
     (case x of
        Inl e \<Rightarrow> Inl e
      | Inr v \<Rightarrow> (case sequence xs of Inl e \<Rightarrow> Inl e | Inr vs \<Rightarrow> Inr (v # vs)))"

section \<open>Document reranker\<close>

text \<open>
  \<open>rerankDocs\<close>. Its collaborators are fields of \<open>rerank_env\<close>: the two files of an
  upload (either read may throw), the embedding model (either call may throw), the
  similarity function \<open>computeSimilarity\<close>, whose second argument is \<open>undefined\<close> when an
  upload has fewer vectors than texts, and the two configuration values. Similarities
  are real numbers. An element of the result is \<open>None\<close> where the source's array holds
  \<open>undefined\<close> (an index with no document).
\<close>

datatype mode = Speed | Balanced | Quality

record 'v file_data =
  fileName :: string
  content :: string
  embeddings :: "'v option"

record 'v rerank_env =
  readContent :: "string \<Rightarrow> error + string \<times> string list"
  readEmbeddings :: "string \<Rightarrow> error + 'v list"
  embedQuery :: "string \<Rightarrow> error + 'v"
  embedDocuments :: "string list \<Rightarrow> error + 'v list"
  computeSimilarity :: "'v \<Rightarrow> 'v option \<Rightarrow> error + real"
  config_rerank :: bool
  config_rerankThreshold :: "real option"

definition loadFile :: "'v rerank_env \<Rightarrow> string \<Rightarrow> error + 'v file_data list" where
  "loadFile env file =
     (case readContent env file of
        Inl e \<Rightarrow> Inl e
      | Inr (t, contents) \<Rightarrow>
          (case readEmbeddings env file of
             Inl e \<Rightarrow> Inl e
           | Inr vs \<Rightarrow>
               Inr (map (\<lambda>(i, c). \<lparr>fileName = t, content = c, embeddings = nth_opt vs i\<rparr>)
                        (enumerate 0 contents))))"

definition loadFiles :: "'v rerank_env \<Rightarrow> string list \<Rightarrow> error + 'v file_data list" where
  \<comment> \<open>\<open>fileIds.map(...).flat()\<close>\<close>
  "loadFiles env fileIds =
     (case sequence (map (loadFile env) fileIds) of Inl e \<Rightarrow> Inl e | Inr fs \<Rightarrow> Inr (concat fs))"

definition fileDoc :: "'v file_data \<Rightarrow> document" where
  "fileDoc fileData =
     \<lparr>pageContent = content fileData, metadata_title = Some (fileName fileData),
      metadata_url = Some ''File'', metadata_isReddit = False\<rparr>"

definition threshold :: "'v rerank_env \<Rightarrow> real" where
  \<comment> \<open>\<open>this.config.rerankThreshold ?? 0.3\<close>\<close>
  "threshold env = (case config_rerankThreshold env of Some t \<Rightarrow> t | None \<Rightarrow> 0.3)"

definition hasContent :: "document \<Rightarrow> bool" where
  "hasContent doc = (length (pageContent doc) > 0)"

definition rank :: "'v rerank_env \<Rightarrow> nat \<Rightarrow> real list \<Rightarrow> document list \<Rightarrow> document option list" where
  \<comment> \<open>\<open>similarity.filter(...).sort((a, b) => b.similarity - a.similarity).slice(0, cap)
      .map((sim) => docs[sim.index])\<close>\<close>
  "rank env cap sims ds =
     map (\<lambda>(i, sim). nth_opt ds i)
       (take cap (sort_key (\<lambda>(i, sim). - sim)
          (filter (\<lambda>(i, sim). sim > threshold env) (enumerate 0 sims))))"

definition rerankDocs ::
  "'v rerank_env \<Rightarrow> string \<Rightarrow> document list \<Rightarrow> string list \<Rightarrow> mode \<Rightarrow> error + document option list" where
  "rerankDocs env query docs fileIds optimizationMode =
     (if length docs = 0 \<and> length fileIds = 0 then Inr (map Some docs)
      else
        case loadFiles env fileIds of
          Inl e \<Rightarrow> Inl e
        | Inr filesData \<Rightarrow>
            if toLocaleLowerCase query = ''summarize'' then Inr (map Some (take 30 docs))
            else
              (let docsWithContent = filter hasContent docs in
               if optimizationMode = Speed \<or> config_rerank env = False then
                 (if length filesData > 0 then
                    (case embedQuery env query of
                       Inl e \<Rightarrow> Inl e
                     | Inr queryEmbedding \<Rightarrow>
                         (let fileDocs = map fileDoc filesData in
                          case sequence (map (\<lambda>fileData. computeSimilarity env queryEmbedding
                                                   (embeddings fileData)) filesData) of
                            Inl e \<Rightarrow> Inl e
                          | Inr similarity \<Rightarrow>
                              (let ranked = rank env 30 similarity fileDocs;
                                   sortedDocs = (if length docsWithContent > 0
                                                 then take 30 ranked else ranked)
                               in Inr (sortedDocs
                                       @ map Some (take (30 - length sortedDocs) docsWithContent)))))
                  else Inr (map Some (take 30 docsWithContent)))
               else if optimizationMode = Balanced then
                 (case embedDocuments env (map pageContent docsWithContent) of
                    Inl e \<Rightarrow> Inl e
                  | Inr docEmbeddings \<Rightarrow>
                      (case embedQuery env query of
                         Inl e \<Rightarrow> Inl e
                       | Inr queryEmbedding \<Rightarrow>
                           (let allDocs = docsWithContent @ map fileDoc filesData;
                                allEmbeddings = map Some docEmbeddings @ map embeddings filesData
                            in case sequence (map (computeSimilarity env queryEmbedding)
                                                  allEmbeddings) of
                                 Inl e \<Rightarrow> Inl e
                               | Inr similarity \<Rightarrow> Inr (rank env 20 similarity allDocs))))
               else Inr []))"

section \<open>Context assembler\<close>

text \<open>\<open>processDocs\<close>: the cap on the number of documents, the heading, and one block per
  document, whose content is truncated when it is longer than the cap of its kind.\<close>

definition MAX_DOCUMENTS :: nat where
  "MAX_DOCUMENTS = 8"

function showNat :: "nat \<Rightarrow> string" where
  "showNat n = (if n < 10 then [''0123456789'' ! n] else showNat (n div 10) @ [''0123456789'' ! (n mod 10)])"
  by pat_completeness auto
termination
  by (relation "measure (\<lambda>n. n)") auto

declare showNat.simps [simp del]

definition isRedditSource :: "document \<Rightarrow> bool" where
  "isRedditSource doc =
     (metadata_isReddit doc
      \<or> (case metadata_url doc of Some u \<Rightarrow> u \<noteq> [] \<and> includesStr u ''reddit.com'' | None \<Rightarrow> False))"

definition maxLengthOf :: "document \<Rightarrow> nat" where
  "maxLengthOf doc = (if isRedditSource doc then 6000 else 2000)"

definition contentTruncated :: string where
  "contentTruncated = [newline, newline] @ ''[...content truncated...]'' @ [newline, newline]"

definition commentsTruncated :: string where
  "commentsTruncated = [newline, newline] @ ''[...additional comments truncated...]''"

definition commentsOmitted :: string where
  "commentsOmitted =
     [newline, newline] @ ''## Comments'' @ [newline, newline]
     @ ''[Comments truncated to fit length limit]''"

definition headAndTail :: "string \<Rightarrow> nat \<Rightarrow> string" where
  \<comment> \<open>the leading 75% and the trailing 25% of the budget, around the marker\<close>
  "headAndTail c maxLength =
     (let beginningPortion = take (maxLength * 3 div 4) c;
          endingPortion = drop (length c - maxLength div 4) c
      in beginningPortion @ contentTruncated @ endingPortion)"

definition keepSections :: "string \<Rightarrow> nat \<Rightarrow> nat \<Rightarrow> nat \<Rightarrow> string" where
  "keepSections c maxLength postHeaderPos commentsHeaderPos =
     (let postSection = substring c postHeaderPos commentsHeaderPos;
          remainingSpace = int maxLength - int (length postSection);
          commentsSection =
            (if remainingSpace > 500 then
               (let cs = drop commentsHeaderPos c in
                if int (length cs) > remainingSpace then
                  (case lastIndexOf cs [newline, newline] (nat remainingSpace) of
                     Some cutoffPoint \<Rightarrow> take cutoffPoint cs
                   | None \<Rightarrow> take (nat remainingSpace) cs) @ commentsTruncated
                else cs)
             else commentsOmitted);
          titleSection = take postHeaderPos c
      in titleSection @ postSection @ commentsSection)"

definition truncateContent :: "document \<Rightarrow> string" where
  "truncateContent doc =
     (let maxLength = maxLengthOf doc; c = pageContent doc in
      if length c > maxLength then
        (if isRedditSource doc then
           (case (indexOf c ''## Original Post'', indexOf c ''## Comments'') of
              (Some postHeaderPos, Some commentsHeaderPos) \<Rightarrow>
                keepSections c maxLength postHeaderPos commentsHeaderPos
            | _ \<Rightarrow> headAndTail c maxLength)
         else headAndTail c maxLength)
      else c)"

definition documentBlock :: "nat \<Rightarrow> document \<Rightarrow> string" where
  "documentBlock index doc =
     (let source = showNat (index + 1) @ ''. '' @ orDefault (metadata_title doc) ''Untitled''
                   @ '' (Source: '' @ orDefault (metadata_url doc) ''Unknown'' @ '')'';
          sourceType = (if isRedditSource doc then '' [REDDIT DISCUSSION]'' else [])
      in source @ sourceType @ [newline] @ truncateContent doc @ [newline])"

fun join :: "string \<Rightarrow> string list \<Rightarrow> string" where
  "join sep [] = []"
| "join sep [x] = x"
| "join sep (x # y # ys) = x @ sep @ join sep (y # ys)"

definition processDocs :: "document list \<Rightarrow> string" where
  "processDocs docs0 =
     (let docs = (if length docs0 > MAX_DOCUMENTS then take MAX_DOCUMENTS docs0 else docs0);
          header = [newline]
            @ ''IMPORTANT: This search query has returned '' @ showNat (length docs)
            @ '' sources. You should use information from most of these sources in your response, as long as they contain relevant information.''
            @ [newline]
            @ ''The sources are listed below, numbered from 1 to '' @ showNat (length docs)
            @ ''. Use these numbers when citing information in your response.''
            @ [newline];
          processedDocs = join ([newline] @ ''---'' @ [newline, newline])
                            (map (\<lambda>(index, doc). documentBlock index doc) (enumerate 0 docs))
      in header @ processedDocs)"

section \<open>Documents from links\<close>

text \<open>
  \<open>getDocumentsFromLinks\<close>. The proxy route of the application answers a request with a
  response (status, status text, body) or not at all; \<open>isProduction\<close> is the value of
  the test on the environment variable; a request to the proxy route for a link is
  logged as a \<open>Get\<close> of the link. The links of a batch are started in their order, so
  their requests are sent in that order; each link pushes its documents when its
  fetch settles, and \<open>settleTime\<close> gives, for a request, the time at which it does (a
  link that throws before any request settles first). The 20 second timer that races
  each fetch never wins: the request is aborted after 15 seconds, which is a failure
  of the request.
\<close>

record proxy_response =
  pr_status :: nat
  pr_statusText :: string
  pr_text :: string

record 'n link_env =
  isProduction :: bool
  proxy :: "nat \<Rightarrow> string \<Rightarrow> error + proxy_response"
  settleTime :: "nat \<Rightarrow> nat"
  engine :: markup_engine
  numbers :: "'n arithmetic"

definition normalizeLink :: "string \<Rightarrow> string option" where
  \<comment> \<open>\<open>None\<close> is the \<open>null\<close> that \<open>filter(Boolean)\<close> removes\<close>
  "normalizeLink link =
     (let url = (if prefix ''http://'' link \<or> prefix ''https://'' link then link
                 else ''https://'' @ link)
      in if includesStr url ''reddit.com'' then
           (let url1 = splitFirst (CHR ''?'') url in
            if includesStr url1 ''klp/'' \<or> includesStr url1 ''/t/''
               \<or> \<not> includesStr url1 ''/comments/''
            then None
            else if includesStr url1 ''www.reddit.com''
            then Some (replace url1 ''www.reddit.com'' ''old.reddit.com'')
            else if includesStr url1 ''reddit.com'' \<and> \<not> includesStr url1 ''old.reddit.com''
            then Some (replace url1 ''reddit.com'' ''old.reddit.com'')
            else Some url1)
         else Some url)"



















section \<open>Web search wrapper\<close>




record search_options =
  language :: "string option"
  engines :: "string list option"
  pageno :: "nat option"
  numResults :: "nat option"













section \<open>Sample inputs\<close>

text \<open>
  Concrete inputs, on which the theorems below are instantiated and evaluated. The
  arithmetic of the samples is that of the reals, which is the arithmetic of the
  doubles on the small integers of the samples.
\<close>

definition sample_numbers :: "real arithmetic" where
  "sample_numbers = \<lparr>toNumber = real, num_add = (+), num_mul = (*), num_log10 = log 10\<rparr>"

definition sample_ann :: "real tracked_comment" where
  "sample_ann = \<lparr>author = ''ann'', ctext = ''first'', score = Some ''5'', scoreNum = 5, visible = False\<rparr>"

definition sample_bob :: "real tracked_comment" where
  "sample_bob = \<lparr>author = ''bob'', ctext = ''second'', score = Some ''7'', scoreNum = 7, visible = False\<rparr>"

definition sample_cy :: "real tracked_comment" where
  "sample_cy = \<lparr>author = ''cy'', ctext = ''third'', score = None, scoreNum = 0, visible = True\<rparr>"

definition sample_page :: string where
  "sample_page = ''<div class=\"score unvoted\" title=\"1000\">1,000</div><p>hello</p>''"

definition sample_blocks :: "string list" where
  "sample_blocks = [''<span class=\"score unvoted\" title=\"12\">12 points</span>'',
                    ''<span class=\"tagline\">no score here</span>'',
                    ''<p><span class=\"score likes\">1 point</span></p>'']"

definition sample_commentRegex :: "string \<Rightarrow> string list" where
  "sample_commentRegex html = sample_blocks"

definition sample_net_ok :: network where
  "sample_net_ok n u = Inr sample_page"

definition sample_net_down :: network where
  "sample_net_down n u = Inl (AxiosError (Some 429) ''Request failed with status code 429'')"

definition sample_net_alt :: network where
  "sample_net_alt n u =
     (if n = 0 then Inl (AxiosError (Some 429) ''Request failed with status code 429'')
      else Inr sample_page)"

definition sample_urls :: "string list" where
  "sample_urls = [''https://www.reddit.com/r/a/comments/1'', ''https://www.reddit.com/r/a/comments/2'',
                  ''https://www.reddit.com/r/a/comments/3'', ''https://www.reddit.com/r/a/comments/4'']"

definition world0 :: world where
  "world0 = \<lparr>sent = 0, events = []\<rparr>"

definition sample_doc :: document where
  "sample_doc = \<lparr>pageContent = ''Mechanical keyboards compared'', metadata_title = Some ''Keyboards'',
                  metadata_url = Some ''https://old.reddit.com/r/kb/comments/1'', metadata_isReddit = True\<rparr>"

definition sample_empty_doc :: document where
  "sample_empty_doc = \<lparr>pageContent = [], metadata_title = Some ''Empty'',
                  metadata_url = Some ''https://example.com/empty'', metadata_isReddit = False\<rparr>"

definition sample_env :: "unit rerank_env" where
  "sample_env = \<lparr>readContent = (\<lambda>f. Inl (Error ''ENOENT'')),
                  readEmbeddings = (\<lambda>f. Inl (Error ''ENOENT'')),
                  embedQuery = (\<lambda>q. Inr ()),
                  embedDocuments = (\<lambda>ts. Inr (map (\<lambda>t. ()) ts)),
                  computeSimilarity = (\<lambda>a b. Inr 1),
                  config_rerank = True,
                  config_rerankThreshold = None\<rparr>"

definition sample_long_post :: document where
  "sample_long_post =
     \<lparr>pageContent = ''## Original Post'' @ replicate 7000 (CHR ''x'') @ ''## Comments'',
      metadata_title = Some ''A long post'',
      metadata_url = Some ''https://old.reddit.com/r/a/comments/1'', metadata_isReddit = True\<rparr>"

definition sample_long_page :: document where
  "sample_long_page =
     \<lparr>pageContent = replicate 2100 (CHR ''a''),
      metadata_title = Some ''A long page'',
      metadata_url = Some ''https://example.com/a'', metadata_isReddit = False\<rparr>"










definition sample_block_ann :: string where
  "sample_block_ann = ''<div class=\"thing id-t1_a noncollapsed\"><p class=\"tagline\"><a href=\"/user/ann\" class=\"author\">ann</a><span class=\"score\" score=\"5\">5 points</span></p><div class=\"md\">first</div></div><div class=\"child\">''"

definition sample_block_bob :: string where
  "sample_block_bob = ''<div class=\"thing id-t1_b \"><p class=\"tagline\"><a href=\"/user/bob\" class=\"author\">bob</a><span class=\"score\" score=\"1\">1 points</span></p><div class=\"md\">second</div></div><div class=\"child\">''"

definition sample_thread :: string where
  "sample_thread = sample_block_ann @ ''</div>'' @ sample_block_bob @ ''</div>''"

definition sample_engine :: "string \<Rightarrow> string \<Rightarrow> markup_engine" where
  "sample_engine k1 k2 =
     \<lparr>titleRegex = (\<lambda>h. None), stripSiteName = (\<lambda>t. t), postContentRegex = (\<lambda>h. None),
      fullCommentRegex = (\<lambda>h. if h = sample_thread
                                then [(sample_block_ann, k1), (sample_block_bob, k2)] else []),
      commentContentRegex = (\<lambda>b. if b = sample_block_ann then Some (''ann'', ''first'')
                                   else if b = sample_block_bob then Some (''bob'', ''second'')
                                   else None),
      htmlToText = (\<lambda>h. h)\<rparr>"

section \<open>Properties of the strings and patterns\<close>

text \<open>\<open>includesStr\<close> is the substring test.\<close>

lemma includesStr_iff: "includesStr s t \<longleftrightarrow> (\<exists>a b. s = a @ t @ b)"
proof (induction s)
  case Nil
  then show ?case by auto
next
  case (Cons c s)
  show ?case
  proof
    assume "includesStr (c # s) t"
    then consider "prefix t (c # s)" | "includesStr s t" by auto
    then show "\<exists>a b. c # s = a @ t @ b"
    proof cases
      case 1
      then obtain b where "c # s = t @ b" by (auto simp: prefix_def)
      then have "c # s = [] @ t @ b" by simp
      then show ?thesis by blast
    next
      case 2
      then obtain a b where "s = a @ t @ b" using Cons.IH by blast
      then have "c # s = (c # a) @ t @ b" by simp
      then show ?thesis by blast
    qed
  next
    assume "\<exists>a b. c # s = a @ t @ b"
    then obtain a b where ab: "c # s = a @ t @ b" by blast
    show "includesStr (c # s) t"
    proof (cases a)
      case Nil
      then have "prefix t (c # s)" using ab by (simp add: prefix_def)
      then show ?thesis by simp
    next
      case (Cons x a')
      then have "s = a' @ t @ b" using ab by simp
      then have "includesStr s t" using Cons.IH by blast
      then show ?thesis by simp
    qed
  qed
qed

text \<open>
  The capture of the comment score pattern is a non-empty run of digits, on which
  \<open>parseInt\<close> is the Number of the decimal value: \<open>toNumber N (decimal score)\<close> stands
  for \<open>parseInt(score, 10)\<close> in the extractor and in the scorer.
\<close>

lemma scoreRegexAt_shape:
  assumes "scoreRegexAt s = Some ds"
  shows "\<exists>r. ds = takeWhile isDigit r \<and> ds \<noteq> []"
proof (cases "stripPrefix ''<span class=\"score'' s")
  case None
  then show ?thesis using assms by (simp add: scoreRegexAt_def)
next
  case r1: (Some r1)
  show ?thesis
  proof (cases "stripPrefix ''>'' (dropWhile (\<lambda>c. c \<noteq> CHR ''>'') r1)")
    case None
    then show ?thesis using assms r1 by (simp add: scoreRegexAt_def)
  next
    case r2: (Some r2)
    show ?thesis
    proof (cases "takeWhile isDigit r2 = []")
      case True
      then show ?thesis using assms r1 r2 by (simp add: scoreRegexAt_def)
    next
      case False
      have "ds = takeWhile isDigit r2"
        using assms r1 r2 False
        by (simp add: scoreRegexAt_def Let_def split: option.splits if_splits)
      then show ?thesis using False by blast
    qed
  qed
qed

lemma firstMatch_some: "firstMatch f s = Some r \<Longrightarrow> \<exists>s'. f s' = Some r"
proof (induction s)
  case Nil
  then have "f [] = Some r" by simp
  then show ?case by (rule exI)
next
  case (Cons c s)
  show ?case
  proof (cases "f (c # s)")
    case None
    then have "firstMatch f s = Some r" using Cons.prems by simp
    then show ?thesis by (rule Cons.IH)
  next
    case (Some r')
    then have "f (c # s) = Some r" using Cons.prems by simp
    then show ?thesis by (rule exI)
  qed
qed

lemma scoreRegex_digits:
  assumes "scoreRegex s = Some ds"
  shows "ds \<noteq> [] \<and> (\<forall>c \<in> set ds. isDigit c) \<and> parseInt N ds = Some (toNumber N (decimal ds))"
proof -
  obtain s' where "scoreRegexAt s' = Some ds"
    using assms firstMatch_some [of scoreRegexAt s ds] unfolding scoreRegex_def by blast
  then obtain r where d: "ds = takeWhile isDigit r" "ds \<noteq> []"
    using scoreRegexAt_shape by blast
  have a: "\<forall>c \<in> set ds. isDigit c"
    unfolding d(1) using set_takeWhileD [of _ isDigit r] by blast
  then have t: "takeWhile isDigit ds = ds"
    by (simp add: takeWhile_eq_all_conv)
  have "parseInt N ds = Some (toNumber N (decimal ds))"
    unfolding parseInt_def Let_def t using d(2) by simp
  then show ?thesis
    using d(2) a by blast
qed

section \<open>Properties of the discussion extractor\<close>

text \<open>
  The visibility test of the scan looks for \<open>collapsed\<close> anywhere in the class text, and
  \<open>noncollapsed\<close> contains it: no collected comment is classified visible, so on a page
  the comments returned are always the first ten of the sorted unfiltered list.
\<close>

lemma noncollapsed_is_collapsed:
  "includesStr s ''noncollapsed'' \<Longrightarrow> includesStr s ''collapsed''"
proof -
  assume "includesStr s ''noncollapsed''"
  then obtain a b where "s = a @ ''noncollapsed'' @ b"
    using includesStr_iff by blast
  then have "s = (a @ ''non'') @ ''collapsed'' @ b" by simp
  then show ?thesis
    using includesStr_iff by blast
qed

lemma collectComment_hidden: "collectComment N E m = Some c \<Longrightarrow> \<not> visible c"
  using noncollapsed_is_collapsed [of "snd m"]
  by (auto simp: collectComment_def Let_def split: option.splits prod.splits if_splits)

lemma collectComments_hidden: "filter visible (collectComments N E htmlContent) = []"
  by (auto simp: collectComments_def List.map_filter_def filter_empty_conv dest: collectComment_hidden)

lemma length_sortByScore: "length (sortByScore cs) = length cs"
  by (simp add: sortByScore_def)

lemma set_sortByScore: "set (sortByScore cs) = set cs"
  by (simp add: sortByScore_def)

lemma sortByScore_descending: "sorted_wrt (\<lambda>a b. scoreNum b \<le> scoreNum a) (sortByScore cs)"
proof -
  have "sorted (map scoreNum (sort_key scoreNum (rev cs)))"
    by (rule sorted_sort_key)
  then have "sorted_wrt (\<lambda>a b. scoreNum a \<le> scoreNum b) (sort_key scoreNum (rev cs))"
    by (simp add: sorted_map)
  then show ?thesis
    by (simp add: sortByScore_def sorted_wrt_rev)
qed

lemma sortByScore_stable:
  "filter (\<lambda>c. scoreNum c = k) (sortByScore cs) = filter (\<lambda>c. scoreNum c = k) cs"
proof -
  have "filter (\<lambda>c. scoreNum c = k) (sort_key scoreNum (rev cs))
        = filter (\<lambda>c. scoreNum c = k) (rev cs)"
    by (rule sort_key_stable)
  then have "rev (filter (\<lambda>c. scoreNum c = k) (sort_key scoreNum (rev cs)))
        = rev (filter (\<lambda>c. scoreNum c = k) (rev cs))"
    by (rule arg_cong)
  then show ?thesis
    by (simp only: sortByScore_def rev_filter rev_rev_ident)
qed

lemma selectComments_cases:
  "selectComments cs =
     map publish (take 10 (if filter visible cs = [] then sortByScore cs
                           else filter visible (sortByScore cs)))"
proof (cases "filter visible cs = []")
  case True
  then have "filter visible (sortByScore cs) = []"
    by (simp add: filter_empty_conv set_sortByScore)
  then show ?thesis
    using True by (simp add: selectComments_def MAX_COMMENTS_def Let_def length_sortByScore)
next
  case False
  then have "filter visible (sortByScore cs) \<noteq> []"
    by (simp add: filter_empty_conv set_sortByScore)
  then show ?thesis
    using False by (simp add: selectComments_def MAX_COMMENTS_def Let_def)
qed

text \<open>
  Two comments whose scores are the same Number keep their order, whatever the digits
  of the scores.
\<close>

lemma sortByScore_tie: "scoreNum a = scoreNum b \<Longrightarrow> sortByScore [a, b] = [a, b]"
  by (simp add: sortByScore_def)

lemma subseq_take: "subseq (take n xs) xs"
  using subseq_rev_drop_many [of "take n xs" "take n xs" "drop n xs"] by simp

lemma collected_numericScore:
  "collectComment N E m = Some c \<Longrightarrow> numericScore N (publish c) = scoreNum c"
  by (auto simp: collectComment_def numericScore_def publish_def Let_def split: option.splits if_splits prod.splits)

lemma collectComments_numericScore:
  "c \<in> set (collectComments N E h) \<Longrightarrow> numericScore N (publish c) = scoreNum c"
  by (auto simp: collectComments_def List.map_filter_def dest: collected_numericScore)

lemma extractRedditContent_comments:
  "comments (extractRedditContent N E h) = selectComments (collectComments N E h)"
  by (simp add: extractRedditContent_def Let_def)

lemma extractRedditContent_falls_back:
  "comments (extractRedditContent N E htmlContent)
   = map publish (take 10 (sortByScore (collectComments N E htmlContent)))"
  by (simp add: extractRedditContent_comments selectComments_cases collectComments_hidden)

text \<open>
  The selection stage of the extractor (sort, visible filter, cap, fallback) on any list
  of collected comments, whatever their flags: with at least one comment and none
  flagged visible, the result has \<open>min N 10\<close> elements, all from the unfiltered list;
  with a comment flagged visible, the result has at most 10 elements, all of them
  flagged visible.
\<close>

lemma selectComments_fallback_and_visible:
  "(cs \<noteq> [] \<and> filter visible cs = [] \<longrightarrow>
      length (selectComments cs) = min (length cs) 10
      \<and> (\<exists>vs. selectComments cs = map publish vs \<and> set vs \<subseteq> set cs))
   \<and> (filter visible cs \<noteq> [] \<longrightarrow>
      length (selectComments cs) \<le> 10
      \<and> (\<exists>vs. selectComments cs = map publish vs \<and> set vs \<subseteq> {c \<in> set cs. visible c}))"
proof (intro conjI impI)
  assume h: "cs \<noteq> [] \<and> filter visible cs = []"
  then have eq: "selectComments cs = map publish (take 10 (sortByScore cs))"
    by (simp add: selectComments_cases)
  show "length (selectComments cs) = min (length cs) 10"
    by (simp add: eq length_sortByScore)
  have "set (take 10 (sortByScore cs)) \<subseteq> set cs"
    using set_take_subset [of 10 "sortByScore cs"] by (simp add: set_sortByScore)
  then show "\<exists>vs. selectComments cs = map publish vs \<and> set vs \<subseteq> set cs"
    using eq by blast
next
  assume h: "filter visible cs \<noteq> []"
  then have eq: "selectComments cs = map publish (take 10 (filter visible (sortByScore cs)))"
    by (simp add: selectComments_cases)
  show "length (selectComments cs) \<le> 10"
    by (simp add: eq)
  have "set (take 10 (filter visible (sortByScore cs))) \<subseteq> set (filter visible (sortByScore cs))"
    by (rule set_take_subset)
  then have "set (take 10 (filter visible (sortByScore cs))) \<subseteq> {c \<in> set cs. visible c}"
    by (auto simp: set_sortByScore)
  then show "\<exists>vs. selectComments cs = map publish vs \<and> set vs \<subseteq> {c \<in> set cs. visible c}"
    using eq by blast
qed



text \<open>
  The lemma at two inputs: two hidden comments (the fallback returns both, the higher
  score first), and a list with one visible comment (only that one is returned).
\<close>

lemma selectComments_fallback_and_visible_example:
  "[sample_ann, sample_bob] \<noteq> [] \<and> filter visible [sample_ann, sample_bob] = []
   \<and> length (selectComments [sample_ann, sample_bob]) = 2
   \<and> filter visible [sample_ann, sample_cy, sample_bob] \<noteq> []
   \<and> length (selectComments [sample_ann, sample_cy, sample_bob]) \<le> 10"
proof -
  have h1: "[sample_ann, sample_bob] \<noteq> [] \<and> filter visible [sample_ann, sample_bob] = []"
    by (simp add: sample_ann_def sample_bob_def)
  have h2: "filter visible [sample_ann, sample_cy, sample_bob] \<noteq> []"
    by (simp add: sample_cy_def)
  show ?thesis
    using h1 h2 selectComments_fallback_and_visible [of "[sample_ann, sample_bob]"]
      selectComments_fallback_and_visible [of "[sample_ann, sample_cy, sample_bob]"]
    by simp
qed

lemma sample_scores:
  "scoreRegex sample_block_ann = Some ''5''" "scoreRegex sample_block_bob = Some ''1''"
  by (simp_all add: sample_block_ann_def sample_block_bob_def scoreRegex_def scoreRegexAt_def
        stripPrefix_def isDigit_def)

lemma sample_blocks_differ: "sample_block_bob \<noteq> sample_block_ann"
  by (simp add: sample_block_ann_def sample_block_bob_def)

text \<open>
  Claim C4 on a page. The thread below is what the proxy route of the application emits
  for two comments: \<open>ann\<close>'s, with 5 points and the class \<open>noncollapsed\<close> (a visible
  comment), and \<open>bob\<close>'s, with 1 point and no such class. Whatever class text the block
  pattern captures for the two blocks, no comment is classified visible, and the
  extractor returns both comments instead of the visible one alone.
\<close>

theorem visible_comment_not_preferred:
  "comments (extractRedditContent sample_numbers (sample_engine k1 k2) sample_thread)
   = [\<lparr>author = ''ann'', ctext = ''first'', score = Some ''5''\<rparr>,
      \<lparr>author = ''bob'', ctext = ''second'', score = Some ''1''\<rparr>]"
  by (simp add: extractRedditContent_falls_back collectComments_def collectComment_def
        sample_engine_def sample_scores sample_blocks_differ sortByScore_def publish_def
        trim_def isSpace_def decimal_def digitVal_def sample_numbers_def Let_def)

text \<open>
  Claim C5. Whatever the page and whatever the arithmetic of the Numbers, the comment
  list the extractor returns is in descending order of numeric score (the Number that
  \<open>parseInt\<close> reads from the score, a comment without a score counting as 0), and for
  every Number \<open>k\<close> the returned comments with that numeric score appear in the order
  in which the scan of the markup collected them. Two scores that denote different
  integers and the same Number are equal scores.
\<close>

theorem extractRedditContent_sorted_stable:
  "sorted_wrt (\<lambda>a b. numericScore N b \<le> numericScore N a) (comments (extractRedditContent N E htmlContent))
   \<and> subseq (filter (\<lambda>c. numericScore N c = k) (comments (extractRedditContent N E htmlContent)))
            (map publish (collectComments N E htmlContent))"
proof -
  define cs where "cs = collectComments N E htmlContent"
  define ys where "ys = take 10 (if filter visible cs = [] then sortByScore cs
                           else filter visible (sortByScore cs))"
  have out: "comments (extractRedditContent N E htmlContent) = map publish ys"
    by (simp add: extractRedditContent_comments selectComments_cases cs_def ys_def)
  have num: "\<And>c. c \<in> set cs \<Longrightarrow> numericScore N (publish c) = scoreNum c"
    unfolding cs_def by (rule collectComments_numericScore)
  have ys_sub: "set ys \<subseteq> set cs"
    unfolding ys_def using set_take_subset [of 10] by (auto simp: set_sortByScore dest: in_set_takeD)
  have sorted_ys: "sorted_wrt (\<lambda>a b. scoreNum b \<le> scoreNum a) ys"
    unfolding ys_def using sortByScore_descending [of cs]
    by (auto intro!: sorted_wrt_take sorted_wrt_filter)
  have "sorted_wrt (\<lambda>a b. numericScore N (publish b) \<le> numericScore N (publish a)) ys"
    using sorted_ys ys_sub num by (auto simp: sorted_wrt_iff_nth_less subset_iff)
  then have A: "sorted_wrt (\<lambda>a b. numericScore N b \<le> numericScore N a) (map publish ys)"
    by (simp add: sorted_wrt_map)
  have f1: "filter (\<lambda>c. numericScore N c = k) (map publish ys) = map publish (filter (\<lambda>c. scoreNum c = k) ys)"
    using ys_sub num by (auto simp: filter_map o_def subset_iff intro!: arg_cong [where f = "map publish"] filter_cong)
  define zs where "zs = (if filter visible cs = [] then sortByScore cs
                           else filter visible (sortByScore cs))"
  have "subseq ys zs"
    unfolding ys_def zs_def by (rule subseq_take)
  then have s1: "subseq (filter (\<lambda>c. scoreNum c = k) ys) (filter (\<lambda>c. scoreNum c = k) zs)"
    by (rule subseq_filter)
  have "filter (\<lambda>c. scoreNum c = k) zs
        = (if filter visible cs = [] then filter (\<lambda>c. scoreNum c = k) cs
           else filter visible (filter (\<lambda>c. scoreNum c = k) cs))"
  proof (cases "filter visible cs = []")
    case True
    then show ?thesis by (simp add: zs_def sortByScore_stable)
  next
    case False
    have "filter (\<lambda>c. scoreNum c = k) (filter visible (sortByScore cs))
          = filter visible (filter (\<lambda>c. scoreNum c = k) (sortByScore cs))"
      by (simp add: conj_commute)
    then show ?thesis using False by (simp only: zs_def sortByScore_stable if_False)
  qed
  then have s2: "subseq (filter (\<lambda>c. scoreNum c = k) zs) cs"
    by (simp add: subseq_order.trans [OF subseq_filter_left subseq_filter_left])
  have B: "subseq (filter (\<lambda>c. scoreNum c = k) ys) cs"
    using s1 s2 by (rule subseq_order.trans)
  show ?thesis using A B f1 out by (simp add: cs_def subseq_map)
qed

section \<open>Properties of the thread scorer\<close>

lemma attempt_events:
  "events (snd (attempt net nurl w)) =
     events w @ Get nurl #
       (if isl (net (sent w) nurl) \<and> includesStr nurl ''old.reddit.com''
        then [Get (alternateUrl nurl)] else [])"
  by (cases "net (sent w) nurl")
     (simp_all add: attempt_def axiosGet_def Let_def)

lemma fetchWithRetry_rounds:
  "fetchWithRetry net u nurl 0 w =
     (case attempt net nurl w of
        (Inr r, w1) \<Rightarrow> (Inr r, w1)
      | (Inl e1, w1) \<Rightarrow>
          (case attempt net nurl (delay 2000 w1) of
             (Inr r, w2) \<Rightarrow> (Inr r, w2)
           | (Inl e2, w2) \<Rightarrow>
               (case attempt net nurl (delay 4000 w2) of
                  (Inr r, w3) \<Rightarrow> (Inr r, w3)
                | (Inl e3, w3) \<Rightarrow>
                    (Inl (if status e3 = Some 429
                          then Error ''Rate limited by Reddit after 3 retries'' else e3), w3))))"
proof -
  have r2: "\<And>w. fetchWithRetry net u nurl 2 w =
     (case attempt net nurl (delay 4000 w) of
                  (Inr r, w3) \<Rightarrow> (Inr r, w3)
                | (Inl e3, w3) \<Rightarrow>
                    (Inl (if status e3 = Some 429
                          then Error ''Rate limited by Reddit after 3 retries'' else e3), w3))"
    by (subst fetchWithRetry.simps) (auto simp: maxRetries_def split: prod.splits sum.splits)
  have r1: "\<And>w. fetchWithRetry net u nurl 1 w =
     (case attempt net nurl (delay 2000 w) of
             (Inr r, w2) \<Rightarrow> (Inr r, w2)
           | (Inl e2, w2) \<Rightarrow> fetchWithRetry net u nurl 2 w2)"
    by (subst fetchWithRetry.simps)
       (auto simp: maxRetries_def numeral_2_eq_2 split: prod.splits sum.splits)
  have r0: "fetchWithRetry net u nurl 0 w =
     (case attempt net nurl w of
             (Inr r, w1) \<Rightarrow> (Inr r, w1)
           | (Inl e1, w1) \<Rightarrow> fetchWithRetry net u nurl 1 w1)"
    by (subst fetchWithRetry.simps) (auto simp: maxRetries_def split: prod.splits sum.splits)
  show ?thesis
    by (simp only: r0 r1 r2)
qed

text \<open>
  Claim C8, as the code has it. Whatever the network answers, the fetch is at most three
  rounds: a second round follows a failed first one after a wait of 2000 ms, a third a
  failed second one after 4000 ms (the round number times 2000), whether the failure
  was HTTP 429 or anything else; after a failed third round it gives up, with the
  rate-limit error when the last status was 429 and with the last error otherwise.
  In every round, not only the last, a failed request to an address that contains
  \<open>old.reddit.com\<close> is followed by a request to its \<open>www.reddit.com\<close> variant, whose
  answer is the answer of the round.
\<close>

theorem fetchWithRetry_three_rounds:
  "fetchWithRetry net u nurl 0 w =
     (case attempt net nurl w of
        (Inr r, w1) \<Rightarrow> (Inr r, w1)
      | (Inl e1, w1) \<Rightarrow>
          (case attempt net nurl (delay 2000 w1) of
             (Inr r, w2) \<Rightarrow> (Inr r, w2)
           | (Inl e2, w2) \<Rightarrow>
               (case attempt net nurl (delay 4000 w2) of
                  (Inr r, w3) \<Rightarrow> (Inr r, w3)
                | (Inl e3, w3) \<Rightarrow>
                    (Inl (if status e3 = Some 429
                          then Error ''Rate limited by Reddit after 3 retries'' else e3), w3))))
   \<and> events (snd (attempt net nurl w)) =
       events w @ Get nurl #
         (if isl (net (sent w) nurl) \<and> includesStr nurl ''old.reddit.com''
          then [Get (alternateUrl nurl)] else [])
   \<and> fst (attempt net nurl w) =
       (if isl (net (sent w) nurl) \<and> includesStr nurl ''old.reddit.com''
        then net (Suc (sent w)) (alternateUrl nurl) else net (sent w) nurl)"
proof -
  have "fst (attempt net nurl w) =
       (if isl (net (sent w) nurl) \<and> includesStr nurl ''old.reddit.com''
        then net (Suc (sent w)) (alternateUrl nurl) else net (sent w) nurl)"
    by (cases "net (sent w) nurl") (simp_all add: attempt_def axiosGet_def Let_def)
  then show ?thesis
    using fetchWithRetry_rounds [of net u nurl w] attempt_events [of net nurl w] by simp
qed

text \<open>
  Claim C8 as stated fails: when the first request is answered with HTTP 429, the other
  host is requested at once, in the first round, and its page is the result; no wait
  and no third round take place.
\<close>

theorem alternate_host_in_first_attempt:
  "fetchPage sample_net_alt ''https://old.reddit.com/r/a/comments/1'' world0
   = (Inr sample_page,
      \<lparr>sent = 2, events = [Get ''https://old.reddit.com/r/a/comments/1'',
                             Get ''https://www.reddit.com/r/a/comments/1'']\<rparr>)"
  by (simp add: fetchPage_def normalizeUrl_def fetchWithRetry_rounds attempt_def axiosGet_def
        sample_net_alt_def world0_def alternateUrl_def)

lemma Max_insert_max:
  fixes h d :: "'a::linorder"
  assumes "finite F"
  shows "Max (insert (max h d) F) = Max (insert h (insert d F))"
proof (cases "F = {}")
  case True
  then show ?thesis by simp
next
  case False
  then show ?thesis using assms by (simp add: max.assoc)
qed

lemma scanComments_acc:
  "scanComments N bs h acc =
     (Max (insert h (set (List.map_filter
                            (\<lambda>b. map_option (\<lambda>m. toNumber N (decimal m)) (scoreRegex b)) bs))),
      acc @ List.map_filter (\<lambda>b. map_option (\<lambda>m. toNumber N (decimal m)) (scoreRegex b)) bs)"
proof (induction bs arbitrary: h acc)
  case Nil
  then show ?case by simp
next
  case (Cons b bs)
  let ?g = "\<lambda>b. map_option (\<lambda>m. toNumber N (decimal m)) (scoreRegex b)"
  show ?case
  proof (cases "scoreRegex b")
    case None
    then show ?thesis by (simp add: Cons.IH)
  next
    case (Some m)
    let ?F = "set (List.map_filter ?g bs)"
    let ?d = "toNumber N (decimal m)"
    have step: "scanComments N (b # bs) h acc = scanComments N bs (max h ?d) (acc @ [?d])"
      using Some by (auto simp add: Let_def max_def)
    have m: "Max (insert (max h ?d) ?F) = Max (insert h (insert ?d ?F))"
      by (rule Max_insert_max) simp
    have "List.map_filter ?g (b # bs) = ?d # List.map_filter ?g bs"
      using Some by simp
    then show ?thesis
      unfolding step Cons.IH by (simp only: m list.set append_Cons append_Nil append_assoc)
  qed
qed

lemma maxCommentScore_number:
  "\<exists>k. Max (insert (toNumber N 0) (set (List.map_filter
            (\<lambda>b. map_option (\<lambda>m. toNumber N (decimal m)) (scoreRegex b)) bs))) = toNumber N k"
proof -
  let ?S = "insert (toNumber N 0) (set (List.map_filter
            (\<lambda>b. map_option (\<lambda>m. toNumber N (decimal m)) (scoreRegex b)) bs))"
  have "Max ?S \<in> ?S"
    by (rule Max_in) simp_all
  moreover have "\<forall>x \<in> ?S. \<exists>k. x = toNumber N k"
    by (auto simp: List.map_filter_def)
  ultimately show ?thesis by blast
qed

lemma scoreBody_ok:
  "fetchPage net u w = (Inr html, w1) \<Longrightarrow>
   extractTopCommentScore N net commentRegex u w = (Inr (analysePage N commentRegex u html), w1)"
  by (simp add: extractTopCommentScore_def scoreBody_def)

text \<open>
  Claim C7. When the page of a thread is fetched, the score of the result is the highest
  comment score found in the comment blocks (0 when there is none), plus three times
  the decimal logarithm of the post score when that is positive, and nothing more when
  the post score is 0, absent or not a number. The scores are Numbers, as \<open>parseInt\<close>
  reads them, and the sum, the product and the logarithm are those of the Numbers;
  the one fact of their arithmetic that is used is that adding 0 to the Number of an
  integer leaves it unchanged.
\<close>

theorem combinedScore_formula:
  assumes "fetchPage net u w = (Inr html, w1)"
    and "\<forall>k. num_add N (toNumber N k) (toNumber N 0) = toNumber N k"
  shows "\<exists>r. extractTopCommentScore N net commentRegex u w = (Inr r, w1)
     \<and> (let maxCommentScore =
              Max (insert (toNumber N 0)
                     (set (List.map_filter
                             (\<lambda>b. map_option (\<lambda>m. toNumber N (decimal m)) (scoreRegex b))
                             (commentRegex html))))
        in case extractPostScore N html of
             Some p \<Rightarrow>
               if p > toNumber N 0
               then ts_score r
                    = num_add N maxCommentScore (num_mul N (num_log10 N p) (toNumber N 3))
               else ts_score r = maxCommentScore
           | None \<Rightarrow> ts_score r = maxCommentScore)"
proof -
  let ?M = "Max (insert (toNumber N 0)
                     (set (List.map_filter
                             (\<lambda>b. map_option (\<lambda>m. toNumber N (decimal m)) (scoreRegex b))
                             (commentRegex html))))"
  obtain k where k: "?M = toNumber N k"
    using maxCommentScore_number [of N "commentRegex html"] by blast
  have z: "num_add N ?M (toNumber N 0) = ?M"
    using assms(2) k by simp
  have "ts_score (analysePage N commentRegex u html)
        = num_add N ?M
            (case extractPostScore N html of
               Some p \<Rightarrow> if p > toNumber N 0
                         then num_mul N (num_log10 N p) (toNumber N 3) else toNumber N 0
             | None \<Rightarrow> toNumber N 0)"
    by (simp add: analysePage_def Let_def scanComments_acc)
  then have "case extractPostScore N html of
             Some p \<Rightarrow>
               if p > toNumber N 0
               then ts_score (analysePage N commentRegex u html)
                    = num_add N ?M (num_mul N (num_log10 N p) (toNumber N 3))
               else ts_score (analysePage N commentRegex u html) = ?M
           | None \<Rightarrow> ts_score (analysePage N commentRegex u html) = ?M"
    using z by (simp split: option.splits)
  then show ?thesis
    using scoreBody_ok [OF assms(1), of N commentRegex]
    by (simp add: Let_def)
qed

theorem combinedScore_formula_witness:
  "fetchPage sample_net_ok ''https://www.reddit.com/r/a/comments/1'' world0
     = (Inr sample_page, \<lparr>sent = 1, events = [Get ''https://old.reddit.com/r/a/comments/1'']\<rparr>)
   \<and> (\<forall>k. num_add sample_numbers (toNumber sample_numbers k) (toNumber sample_numbers 0)
            = toNumber sample_numbers k)
   \<and> (\<exists>r. extractTopCommentScore sample_numbers sample_net_ok sample_commentRegex
              ''https://www.reddit.com/r/a/comments/1'' world0
            = (Inr r, \<lparr>sent = 1, events = [Get ''https://old.reddit.com/r/a/comments/1'']\<rparr>)
          \<and> ts_score r = 12 + log 10 1000 * 3)"
proof -
  have f: "fetchPage sample_net_ok ''https://www.reddit.com/r/a/comments/1'' world0
     = (Inr sample_page, \<lparr>sent = 1, events = [Get ''https://old.reddit.com/r/a/comments/1'']\<rparr>)"
    by (simp add: fetchPage_def normalizeUrl_def fetchWithRetry_rounds attempt_def axiosGet_def
          sample_net_ok_def world0_def)
  have z: "\<forall>k. num_add sample_numbers (toNumber sample_numbers k) (toNumber sample_numbers 0)
            = toNumber sample_numbers k"
    by (simp add: sample_numbers_def)
  have p: "extractPostScore sample_numbers sample_page = Some 1000"
    by (simp add: extractPostScore_def sample_page_def postScoreRegexAt_def stripPrefix_def
          scoreDivTail_def isScoreChar_def isDigit_def parseInt_def removeCommas_def
          decimal_def digitVal_def sample_numbers_def)
  have m: "List.map_filter (\<lambda>b. map_option (\<lambda>m. toNumber sample_numbers (decimal m)) (scoreRegex b))
             (sample_commentRegex sample_page)
           = [12, 1]"
    by (simp add: sample_commentRegex_def sample_blocks_def scoreRegex_def scoreRegexAt_def
          stripPrefix_def isDigit_def decimal_def digitVal_def sample_numbers_def)
  have n: "toNumber sample_numbers 0 = 0" "toNumber sample_numbers 3 = 3"
      "num_add sample_numbers = (+)" "num_mul sample_numbers = (*)"
      "num_log10 sample_numbers = log 10"
    by (simp_all add: sample_numbers_def)
  show ?thesis
    using combinedScore_formula [OF f z, of sample_commentRegex] f z by (simp add: p m n)
qed

lemma attempt_down: "fst (attempt sample_net_down nurl w) = Inl (AxiosError (Some 429) ''Request failed with status code 429'')"
  by (simp add: attempt_def axiosGet_def sample_net_down_def Let_def)

lemma fetchPage_down:
  "fst (fetchPage sample_net_down u w) = Inl (Error ''Rate limited by Reddit after 3 retries'')"
proof -
  have a: "\<And>w. \<exists>w1. attempt sample_net_down (normalizeUrl u) w = (Inl (AxiosError (Some 429) ''Request failed with status code 429''), w1)"
    using attempt_down by (metis prod.collapse)
  obtain w1 where 1: "attempt sample_net_down (normalizeUrl u) w = (Inl (AxiosError (Some 429) ''Request failed with status code 429''), w1)"
    using a by blast
  obtain w2 where 2: "attempt sample_net_down (normalizeUrl u) (delay 2000 w1) = (Inl (AxiosError (Some 429) ''Request failed with status code 429''), w2)"
    using a by blast
  obtain w3 where 3: "attempt sample_net_down (normalizeUrl u) (delay 4000 w2) = (Inl (AxiosError (Some 429) ''Request failed with status code 429''), w3)"
    using a by blast
  show ?thesis
    by (simp add: fetchPage_def fetchWithRetry_rounds 1 2 3)
qed

abbreviation scored ::
  "('n::linorder) arithmetic \<Rightarrow> network \<Rightarrow> (string \<Rightarrow> string list) \<Rightarrow> string
   \<Rightarrow> 'n thread_score \<Rightarrow> bool" where
  "scored N net cr u r \<equiv> (ts_url r = u \<and>
      (\<exists>wi. fst (extractTopCommentScore N net cr u wi) = Inr r
         \<and> (\<forall>e. fst (fetchPage net u wi) = Inl e \<longrightarrow> ts_score r = toNumber N 0)))"

lemma analysePage_url: "ts_url (analysePage N cr u html) = u"
  by (simp add: analysePage_def Let_def split: prod.splits)

lemma extractTopCommentScore_total:
  "\<exists>r w1. extractTopCommentScore N net cr u w = (Inr r, w1) \<and> ts_url r = u
     \<and> (\<forall>e. fst (fetchPage net u w) = Inl e \<longrightarrow> ts_score r = toNumber N 0)"
  by (cases "fetchPage net u w")
     (auto simp: extractTopCommentScore_def scoreBody_def zeroResult_def analysePage_url
           split: sum.splits prod.splits)

lemma worker_total:
  "\<exists>r w1. catchZero N u (extractTopCommentScore N net cr u) w = (Inr r, w1) \<and> scored N net cr u r"
proof -
  obtain r w1 where h: "extractTopCommentScore N net cr u w = (Inr r, w1)" "ts_url r = u"
      "\<forall>e. fst (fetchPage net u w) = Inl e \<longrightarrow> ts_score r = toNumber N 0"
    using extractTopCommentScore_total [of N net cr u w] by blast
  have "catchZero N u (extractTopCommentScore N net cr u) w = (Inr r, w1)"
    using h(1) by (simp add: catchZero_def)
  moreover have "scored N net cr u r"
    using h by (metis fst_conv)
  ultimately show ?thesis by blast
qed

lemma promiseAll_workers:
  "\<exists>rs w1. promiseAll (map (\<lambda>u. catchZero N u (extractTopCommentScore N net cr u)) us) w = (Inr rs, w1)
      \<and> list_all2 (scored N net cr) us rs"
proof (induction us arbitrary: w)
  case Nil
  then show ?case by simp
next
  case (Cons u us)
  obtain r w1 where a: "catchZero N u (extractTopCommentScore N net cr u) w = (Inr r, w1)" "scored N net cr u r"
    using worker_total [of N u net cr w] by blast
  obtain rs w2 where b: "promiseAll (map (\<lambda>u. catchZero N u (extractTopCommentScore N net cr u)) us) w1 = (Inr rs, w2)"
      "list_all2 (scored N net cr) us rs"
    using Cons.IH [of w1] by blast
  show ?case using a b by simp
qed

lemma scoreBatches_total:
  "list_all2 (scored N net cr) (take i urls) acc \<Longrightarrow>
   \<exists>rs w1. scoreBatches N net cr urls i acc w = (Inr rs, w1) \<and> list_all2 (scored N net cr) urls rs"
proof (induction N net cr urls i acc w rule: scoreBatches.induct)
  case (1 N net cr urls i acc w)
  show ?case
  proof (cases "i < length urls")
    case False
    then show ?thesis using "1.prems" by (subst scoreBatches.simps) simp
  next
    case True
    define batchUrls where "batchUrls = take BATCH_SIZE (drop i urls)"
    obtain rs w1 where b: "promiseAll (map (\<lambda>u. catchZero N u (extractTopCommentScore N net cr u)) batchUrls) w = (Inr rs, w1)"
       "list_all2 (scored N net cr) batchUrls rs"
      using promiseAll_workers by blast
    have "take (i + BATCH_SIZE) urls = take i urls @ batchUrls"
      unfolding batchUrls_def by (simp add: take_add)
    then have inv: "list_all2 (scored N net cr) (take (i + BATCH_SIZE) urls) (acc @ rs)"
      using "1.prems" b(2) by (simp add: list_all2_appendI)
    have "\<exists>rs' w'. scoreBatches N net cr urls (i + BATCH_SIZE) (acc @ rs)
             (if i + BATCH_SIZE < length urls then delay BATCH_DELAY w1 else w1) = (Inr rs', w')
            \<and> list_all2 (scored N net cr) urls rs'"
      using "1.IH" [OF True batchUrls_def b(1) [symmetric] refl inv] .
    then show ?thesis
      using True b(1) by (subst scoreBatches.simps) (simp add: batchUrls_def Let_def)
  qed
qed

text \<open>
  Claim C6. For every list of addresses and every behaviour of the network, the scoring
  stage returns (it does not raise) one result per address, in order, each for its
  address; each result is what \<open>extractTopCommentScore\<close> returned for the address, and
  has score 0 when the fetch of the page failed.
\<close>

theorem scoreThreads_total:
  "\<exists>rs w1. scoreThreads N net cr urls w = (Inr rs, w1) \<and> length rs = length urls
      \<and> list_all2 (scored N net cr) urls rs"
proof -
  obtain rs w1 where h: "scoreBatches N net cr urls 0 [] w = (Inr rs, w1)"
      "list_all2 (scored N net cr) urls rs"
    using scoreBatches_total [of N net cr 0 urls "[]" w] by auto
  have "length rs = length urls"
    using h(2) by (simp add: list_all2_lengthD)
  then show ?thesis
    using h by (simp add: scoreThreads_def)
qed

theorem scoreThreads_total_witness:
  "\<exists>rs w1. scoreThreads sample_numbers sample_net_down sample_commentRegex sample_urls world0 = (Inr rs, w1)
      \<and> length rs = 4 \<and> map ts_url rs = sample_urls \<and> map ts_score rs = [0, 0, 0, 0]"
proof -
  obtain rs w1 where h: "scoreThreads sample_numbers sample_net_down sample_commentRegex sample_urls world0 = (Inr rs, w1)"
     "length rs = length sample_urls"
     "list_all2 (\<lambda>u r. ts_url r = u \<and>
      (\<exists>wi. fst (extractTopCommentScore sample_numbers sample_net_down sample_commentRegex u wi) = Inr r
         \<and> (\<forall>e. fst (fetchPage sample_net_down u wi) = Inl e \<longrightarrow> ts_score r = toNumber sample_numbers 0))) sample_urls rs"
    using scoreThreads_total [of sample_numbers sample_net_down sample_commentRegex sample_urls "world0"]
    by blast
  have len: "length rs = 4"
    using h(2) by (simp add: sample_urls_def)
  have all: "\<forall>i<length rs. ts_url (rs ! i) = sample_urls ! i \<and> ts_score (rs ! i) = 0"
    using h(3) fetchPage_down by (auto simp: list_all2_conv_all_nth sample_numbers_def)
  have "map ts_url rs = sample_urls"
    using all h(2) by (intro nth_equalityI) simp_all
  moreover have "map ts_score rs = [0, 0, 0, 0]"
    using all len by (intro nth_equalityI) (simp_all add: nth_Cons')
  ultimately show ?thesis
    using h(1) len by (intro exI conjI)
qed

section \<open>Properties of the document reranker\<close>

text \<open>
  The ranking used by the balanced path (cap 20) and, on uploads, by the speed path
  (cap 30): at most \<open>cap\<close> entries, each with a similarity above the threshold, in
  descending order of similarity.
\<close>

lemma rank_selection:
  "\<exists>sel. rank env cap sims ds = map (\<lambda>(i, sim). nth_opt ds i) sel
     \<and> length sel \<le> cap
     \<and> (\<forall>(i, sim) \<in> set sel. i < length sims \<and> sims ! i = sim \<and> sim > threshold env)
     \<and> sorted_wrt (\<lambda>a b. snd b \<le> snd a) sel"
proof -
  define cand where "cand = filter (\<lambda>(i, sim). sim > threshold env) (enumerate 0 sims)"
  define sel where "sel = take cap (sort_key (\<lambda>(i, sim). - sim) cand)"
  have r: "rank env cap sims ds = map (\<lambda>(i, sim). nth_opt ds i) sel"
    by (simp add: rank_def sel_def cand_def)
  have l: "length sel \<le> cap"
    by (simp add: sel_def)
  have "set sel \<subseteq> set cand"
    unfolding sel_def using set_take_subset [of cap "sort_key (\<lambda>(i, sim). - sim) cand"] by simp
  then have m: "\<forall>(i, sim) \<in> set sel. i < length sims \<and> sims ! i = sim \<and> sim > threshold env"
    unfolding cand_def by (auto simp: in_set_enumerate_eq)
  have "sorted (map (\<lambda>(i, sim). - sim) (sort_key (\<lambda>(i, sim). - sim) cand))"
    by (rule sorted_sort_key)
  then have "sorted_wrt (\<lambda>a b. snd b \<le> snd a) (sort_key (\<lambda>(i, sim). - sim) cand)"
    by (simp add: sorted_map sorted_wrt_iff_nth_less case_prod_beta)
  then have s: "sorted_wrt (\<lambda>a b. snd b \<le> snd a) sel"
    unfolding sel_def by (rule sorted_wrt_take)
  show ?thesis using r l m s by blast
qed

lemma loadFiles_Nil: "loadFiles env [] = Inr []"
  by (simp add: loadFiles_def)

text \<open>
  Claim C9, for every query but "summarize". In speed mode with no uploaded file, and a
  query whose lower-case form is not \<open>summarize\<close>, the reranker returns the first 30
  documents with non-empty content, in their input order, hence
  \<open>min 30 (number of documents with content)\<close> documents; no embedding is computed.
\<close>

theorem rerankDocs_speed_no_files:
  assumes "toLocaleLowerCase query \<noteq> ''summarize''"
  shows "rerankDocs env query docs [] Speed = Inr (map Some (take 30 (filter hasContent docs)))
         \<and> (\<exists>rs. rerankDocs env query docs [] Speed = Inr rs
               \<and> length rs = min 30 (length (filter hasContent docs)))"
  using assms by (cases docs) (simp_all add: rerankDocs_def loadFiles_Nil Let_def)

theorem rerankDocs_speed_no_files_witness:
  "toLocaleLowerCase ''keyboards'' \<noteq> ''summarize''
   \<and> rerankDocs sample_env ''keyboards'' [sample_empty_doc, sample_doc] [] Speed = Inr [Some sample_doc]"
proof -
  have h: "toLocaleLowerCase ''keyboards'' \<noteq> ''summarize''"
    by (simp add: toLocaleLowerCase_def lowerChar_def)
  have "filter hasContent [sample_empty_doc, sample_doc] = [sample_doc]"
    by (simp add: hasContent_def sample_empty_doc_def sample_doc_def)
  then show ?thesis
    using h rerankDocs_speed_no_files [OF h, of sample_env "[sample_empty_doc, sample_doc]"] by simp
qed

text \<open>
  Claim C9 as stated, for every query, fails on the query "summarize" (in any case of
  letters): the first 30 documents are returned as they are, a document with empty
  content among them.
\<close>

theorem summarize_keeps_empty_documents:
  "rerankDocs sample_env ''Summarize'' [sample_empty_doc] [] Speed = Inr [Some sample_empty_doc]
   \<and> filter hasContent [sample_empty_doc] = []"
  by (simp add: rerankDocs_def loadFiles_Nil toLocaleLowerCase_def lowerChar_def hasContent_def sample_empty_doc_def)

text \<open>
  Claim C1 as stated fails: on one document with content, whose similarity 1 is above the
  threshold, balanced mode returns the document and quality mode returns nothing.
\<close>

theorem quality_returns_nothing:
  "rerankDocs sample_env ''keyboards'' [sample_doc] [] Balanced = Inr [Some sample_doc]
   \<and> rerankDocs sample_env ''keyboards'' [sample_doc] [] Quality = Inr []"
  by (simp add: rerankDocs_def loadFiles_Nil toLocaleLowerCase_def lowerChar_def hasContent_def sample_doc_def
       sample_env_def rank_def threshold_def nth_opt_def Let_def)

text \<open>
  Claim C1, as the code has it. Quality mode returns what balanced mode returns in four
  cases: no document and no file id, an upload that cannot be read (the same error),
  the query "summarize", and reranking switched off in the configuration (both take
  the speed path). In every other case quality mode returns the empty list.
\<close>

theorem rerankDocs_quality:
  "rerankDocs env query docs fileIds Quality =
     (if (docs = [] \<and> fileIds = []) \<or> isl (loadFiles env fileIds)
         \<or> toLocaleLowerCase query = ''summarize'' \<or> \<not> config_rerank env
      then rerankDocs env query docs fileIds Balanced
      else Inr [])"
  by (cases "loadFiles env fileIds") (simp_all add: rerankDocs_def Let_def)

theorem rerankDocs_quality_witness:
  "config_rerank sample_env
   \<and> rerankDocs sample_env ''keyboards'' [sample_doc] [] Quality = Inr []
   \<and> rerankDocs sample_env ''summarize'' [sample_doc] [] Quality
       = rerankDocs sample_env ''summarize'' [sample_doc] [] Balanced"
proof -
  have c: "config_rerank sample_env"
    by (simp add: sample_env_def)
  have l: "toLocaleLowerCase ''keyboards'' \<noteq> ''summarize''"
          "toLocaleLowerCase ''summarize'' = ''summarize''"
    by (simp_all add: toLocaleLowerCase_def lowerChar_def)
  show ?thesis
    using c l rerankDocs_quality [of sample_env "''keyboards''" "[sample_doc]" "[]"]
      rerankDocs_quality [of sample_env "''summarize''" "[sample_doc]" "[]"]
    by (simp add: loadFiles_Nil)
qed

section \<open>Properties of the context assembler\<close>

text \<open>A block is a heading line followed by the content of the document.\<close>

lemma documentBlock_content:
  "\<exists>heading. documentBlock index doc = heading @ [newline] @ truncateContent doc @ [newline]"
  by (simp add: documentBlock_def Let_def)

lemma length_markers:
  "length contentTruncated = 29" "length commentsTruncated = 39" "length commentsOmitted = 55"
  by (simp_all add: contentTruncated_def commentsTruncated_def commentsOmitted_def)

lemma length_headAndTail: "length (headAndTail c m) \<le> m + length contentTruncated"
  by (simp add: headAndTail_def Let_def)

lemma lastIndexOf_le: "lastIndexOf s t n = Some i \<Longrightarrow> i \<le> n"
proof -
  assume a: "lastIndexOf s t n = Some i"
  let ?xs = "filter (\<lambda>i. prefix t (drop i s)) (rev [0 ..< Suc (min n (length s - length t))])"
  from a have "?xs \<noteq> [] \<and> i = hd ?xs"
    by (auto simp: lastIndexOf_def split: list.splits)
  then have "i \<in> set ?xs" by simp
  then have "i \<in> set [0 ..< Suc (min n (length s - length t))]"
    by (simp only: set_filter set_rev) blast
  then have "i < Suc (min n (length s - length t))"
    by (simp only: set_upt atLeastLessThan_iff)
  then show ?thesis by simp
qed

lemma length_keepSections:
  "length (keepSections c m p q) \<le> p + max m (length (substring c p q)) + length commentsOmitted"
proof -
  define post where "post = substring c p q"
  define rem where "rem = int m - int (length post)"
  define cs where "cs = drop q c"
  define comm where "comm =
            (if rem > 500 then
               (if int (length cs) > rem then
                  (case lastIndexOf cs [newline, newline] (nat rem) of
                     Some cutoffPoint \<Rightarrow> take cutoffPoint cs
                   | None \<Rightarrow> take (nat rem) cs) @ commentsTruncated
                else cs)
             else commentsOmitted)"
  have k: "keepSections c m p q = take p c @ post @ comm"
    unfolding keepSections_def Let_def post_def rem_def cs_def comm_def by (rule refl)
  have "int (length comm) \<le> max rem 0 + 55"
  proof (cases "rem > 500")
    case False
    then show ?thesis by (simp add: comm_def length_markers)
  next
    case True
    show ?thesis
    proof (cases "int (length cs) > rem")
      case False
      then show ?thesis using True by (simp add: comm_def)
    next
      case long: True
      have "length (case lastIndexOf cs [newline, newline] (nat rem) of
                     Some cutoffPoint \<Rightarrow> take cutoffPoint cs
                   | None \<Rightarrow> take (nat rem) cs) \<le> nat rem"
        by (auto split: option.splits dest: lastIndexOf_le)
      then show ?thesis using True long by (simp add: comm_def length_markers)
    qed
  qed
  then have "length comm + length post \<le> max m (length post) + 55"
    unfolding rem_def by linarith
  then show ?thesis
    unfolding k by (simp add: length_markers flip: post_def)
qed

text \<open>
  Claim C2, as the code has it. The content of a block is at most the cap of its kind
  (6000 for a discussion source, 2000 otherwise) plus the 29 characters of the
  truncation marker, for every document that is not a discussion source and for every
  discussion source in which the post header or the comments header is not found. For
  a discussion source with both headers, found at \<open>p\<close> and \<open>q\<close>, the title and post
  sections are kept whole: the content is at most \<open>p\<close>, plus the larger of 6000 and
  the length of the post section, plus the 55 characters of the longest notice.
\<close>

theorem truncateContent_bound:
  "(\<not> isRedditSource doc \<or> indexOf (pageContent doc) ''## Original Post'' = None
      \<or> indexOf (pageContent doc) ''## Comments'' = None
     \<longrightarrow> length (truncateContent doc) \<le> maxLengthOf doc + length contentTruncated)
   \<and> (isRedditSource doc \<and> indexOf (pageContent doc) ''## Original Post'' = Some p
      \<and> indexOf (pageContent doc) ''## Comments'' = Some q
     \<longrightarrow> length (truncateContent doc)
           \<le> p + max 6000 (length (substring (pageContent doc) p q)) + length commentsOmitted)"
proof (intro conjI impI)
  assume "\<not> isRedditSource doc \<or> indexOf (pageContent doc) ''## Original Post'' = None
      \<or> indexOf (pageContent doc) ''## Comments'' = None"
  then show "length (truncateContent doc) \<le> maxLengthOf doc + length contentTruncated"
    using length_headAndTail [of "pageContent doc" "maxLengthOf doc"]
    by (auto simp: truncateContent_def Let_def split: option.splits)
next
  assume a: "isRedditSource doc \<and> indexOf (pageContent doc) ''## Original Post'' = Some p
      \<and> indexOf (pageContent doc) ''## Comments'' = Some q"
  show "length (truncateContent doc)
           \<le> p + max 6000 (length (substring (pageContent doc) p q)) + length commentsOmitted"
  proof (cases "length (pageContent doc) > 6000")
    case True
    then show ?thesis
      using a length_keepSections [of "pageContent doc" 6000 p q]
      by (simp add: truncateContent_def maxLengthOf_def Let_def)
  next
    case False
    then show ?thesis
      using a by (simp add: truncateContent_def maxLengthOf_def Let_def)
  qed
qed

lemma indexOf_replicate:
  "t \<noteq> [] \<Longrightarrow> hd t \<noteq> c \<Longrightarrow> indexOf (replicate n c @ s) t = map_option ((+) n) (indexOf s t)"
proof (induction n)
  case 0
  then show ?case by (simp add: option.map_ident)
next
  case (Suc n)
  have "\<not> prefix t (c # replicate n c @ s)"
    using Suc.prems by (cases t) auto
  then show ?case
    using Suc by (simp add: option.map_comp o_def)
qed

lemma sample_long_post_headers:
  "indexOf (pageContent sample_long_post) ''## Original Post'' = Some 0"
  "indexOf (pageContent sample_long_post) ''## Comments'' = Some 7016"
  "isRedditSource sample_long_post"
  "length (pageContent sample_long_post) = 7027"
  by (simp_all add: sample_long_post_def indexOf_replicate isRedditSource_def)

text \<open>
  Claim C2 as stated fails: a discussion source whose post section has 7016 characters
  is emitted with a content of 7071 characters, above 6000 plus the length of any of
  the three markers (29, 39 and 55).
\<close>

theorem post_section_exceeds_cap:
  "isRedditSource sample_long_post \<and> maxLengthOf sample_long_post = 6000
   \<and> length (truncateContent sample_long_post) = 7071
   \<and> length contentTruncated = 29 \<and> length commentsTruncated = 39
   \<and> length commentsOmitted = 55"
  using sample_long_post_headers
  by (simp add: truncateContent_def maxLengthOf_def keepSections_def substring_def Let_def length_markers)

theorem truncateContent_bound_witness:
  "\<not> isRedditSource sample_long_page
   \<and> length (truncateContent sample_long_page) \<le> 2029
   \<and> isRedditSource sample_long_post
   \<and> indexOf (pageContent sample_long_post) ''## Original Post'' = Some 0
   \<and> indexOf (pageContent sample_long_post) ''## Comments'' = Some 7016
   \<and> length (truncateContent sample_long_post) \<le> 7071"
proof -
  have h: "\<not> isRedditSource sample_long_page"
    by (simp add: isRedditSource_def sample_long_page_def)
  have s: "length (substring (pageContent sample_long_post) 0 7016) = 7016"
    by (simp add: substring_def sample_long_post_headers)
  show ?thesis
    using h sample_long_post_headers
      truncateContent_bound [of sample_long_page 0 0]
      truncateContent_bound [of sample_long_post 0 7016]
    by (simp add: s length_markers maxLengthOf_def)
qed

section \<open>Properties of the documents from links\<close>















text \<open>
  A discussion link survives the normalisation only as a post link: its address,
  cut at the first \<open>?\<close>, contains \<open>/comments/\<close>.
\<close>

lemma normalizeLink_post:
  assumes "normalizeLink link = Some l" "includesStr l ''reddit.com''"
  shows "\<exists>url. (url = link \<or> url = ''https://'' @ link)
     \<and> includesStr url ''reddit.com''
     \<and> includesStr (splitFirst (CHR ''?'') url) ''/comments/''"
proof -
  define url where "url = (if prefix ''http://'' link \<or> prefix ''https://'' link then link
                 else ''https://'' @ link)"
  have u: "url = link \<or> url = ''https://'' @ link"
    by (simp add: url_def)
  have r: "includesStr url ''reddit.com''"
  proof (rule ccontr)
    assume "\<not> includesStr url ''reddit.com''"
    then have "normalizeLink link = Some url"
      by (simp add: normalizeLink_def url_def Let_def)
    then show False
      using assms \<open>\<not> includesStr url ''reddit.com''\<close> by simp
  qed
  have "includesStr (splitFirst (CHR ''?'') url) ''/comments/''"
  proof (rule ccontr)
    assume "\<not> includesStr (splitFirst (CHR ''?'') url) ''/comments/''"
    then have "normalizeLink link = None"
      using r by (simp add: normalizeLink_def url_def Let_def)
    then show False
      using assms by simp
  qed
  then show ?thesis
    using u r by blast
qed







section \<open>Properties of the web search wrapper\<close>















end
